theory Spec2Isabelle
  imports Complex_Main
begin

section \<open>Values of the Python programs\<close>

text \<open>
  The scripts compute with Python floats and NumPy float arrays. A finite float is
  modelled by the rational number it denotes (type \<open>rat\<close>); the rounding of float
  arithmetic is not modelled. The special values that NumPy produces instead of raising
  (a division by zero gives \<open>nan\<close> or an infinity with a warning) are constructors of
  \<open>np_float\<close>. An exception raised inside a function is the \<open>Inl\<close> branch of a sum.
\<close>

datatype py_error = ValueError | ZeroDivisionError

datatype np_float = Fin rat | PInf | NInf | NaN

text \<open>A finite array element divided by a finite scalar (NumPy true division).\<close>

definition np_divide :: "rat \<Rightarrow> rat \<Rightarrow> np_float" where
  "np_divide x m =
     (if m = 0 then (if x = 0 then NaN else if 0 < x then PInf else NInf)
      else Fin (x / m))"

fun np_abs :: "np_float \<Rightarrow> np_float" where
  "np_abs (Fin x) = Fin \<bar>x\<bar>"
| "np_abs PInf = PInf"
| "np_abs NInf = PInf"
| "np_abs NaN = NaN"

text \<open>\<open>x < t\<close> for a finite \<open>t\<close>: every comparison with \<open>nan\<close> is false.\<close>

fun np_less :: "np_float \<Rightarrow> rat \<Rightarrow> bool" where
  "np_less (Fin x) t = (x < t)"
| "np_less PInf t = False"
| "np_less NInf t = True"
| "np_less NaN t = False"

text \<open>\<open>np.abs\<close> on an \<open>int16\<close> array wraps: the absolute value of -32768 is -32768.\<close>

definition int16_abs :: "int \<Rightarrow> int" where
  "int16_abs x = (\<bar>x\<bar> + 32768) mod 65536 - 32768"

text \<open>\<open>np.max\<close> raises \<open>ValueError\<close> on an array without elements.\<close>

fun np_max :: "'a::linorder list \<Rightarrow> py_error + 'a" where
  "np_max [] = Inl ValueError"
| "np_max (x # xs) = Inr (fold max xs x)"

text \<open>\<open>np.mean\<close> of a boolean array: the share of \<open>True\<close>; \<open>nan\<close> on an empty array.\<close>

definition np_mean :: "bool list \<Rightarrow> np_float" where
  "np_mean w =
     (if w = [] then NaN
      else Fin (of_nat (length (filter (\<lambda>b. b) w)) / of_nat (length w)))"

text \<open>\<open>int(x)\<close> of a float truncates towards zero.\<close>

definition int_of_float :: "rat \<Rightarrow> int" where
  "int_of_float x = (if 0 \<le> x then \<lfloor>x\<rfloor> else \<lceil>x\<rceil>)"

text \<open>\<open>a // b\<close> on integers: floor division, \<open>ZeroDivisionError\<close> when \<open>b = 0\<close>.\<close>

definition py_floordiv :: "int \<Rightarrow> int \<Rightarrow> py_error + int" where
  "py_floordiv a b = (if b = 0 then Inl ZeroDivisionError else Inr (a div b))"

text \<open>\<open>xs[a:b]\<close>: a negative bound counts from the end, and both bounds are clamped.\<close>

definition py_slice :: "'a list \<Rightarrow> int \<Rightarrow> int \<Rightarrow> 'a list" where
  "py_slice xs a b =
     (let n = int (length xs);
          a' = (if a < 0 then max 0 (n + a) else min a n);
          b' = (if b < 0 then max 0 (n + b) else min b n)
      in take (nat (b' - a')) (drop (nat a') xs))"


section \<open>The silence remover (01_CutSilent.py, \<open>remove_silence\<close>)\<close>

subsection \<open>Reading and normalising the audio (lines 74 to 78)\<close>

text \<open>
  The frames of the temporary WAV file are read as \<open>int16\<close> samples. With two channels
  the array is reshaped to pairs and averaged (a \<open>float64\<close> array); otherwise it stays
  an \<open>int16\<close> array.
\<close>

datatype ndarray = Int16 "int list" | Float64 "rat list"

fun channel_means :: "int list \<Rightarrow> rat list" where
  "channel_means (l # r # xs) = (of_int l + of_int r) / 2 # channel_means xs"
| "channel_means xs = []"

definition read_audio :: "nat \<Rightarrow> int list \<Rightarrow> py_error + ndarray" where
  "read_audio nchannels samples =
     (if nchannels = 2
      then (if even (length samples) then Inr (Float64 (channel_means samples))
            else Inl ValueError)
      else Inr (Int16 samples))"

text \<open>\<open>np.max(np.abs(audio_data))\<close>, in the element type of the array.\<close>

fun max_abs :: "ndarray \<Rightarrow> py_error + rat" where
  "max_abs (Int16 xs) = map_sum id of_int (np_max (map int16_abs xs))"
| "max_abs (Float64 xs) = np_max (map abs xs)"

text \<open>\<open>audio_data.astype(np.float32)\<close>: samples and their half-sums are exact.\<close>

fun astype_float32 :: "ndarray \<Rightarrow> rat list" where
  "astype_float32 (Int16 xs) = map of_int xs"
| "astype_float32 (Float64 xs) = xs"

text \<open>Line 78: every sample divided by the peak. Nothing guards a peak of zero.\<close>

definition normalize :: "ndarray \<Rightarrow> py_error + np_float list" where
  "normalize audio_data =
     (case max_abs audio_data of
        Inl e \<Rightarrow> Inl e
      | Inr peak \<Rightarrow> Inr (map (\<lambda>x. np_divide x peak) (astype_float32 audio_data)))"

subsection \<open>Per-sample classification on the CPU (line 94)\<close>

definition is_silent_cpu :: "np_float list \<Rightarrow> rat \<Rightarrow> bool list" where
  "is_silent_cpu audio_data threshold = map (\<lambda>x. np_less (np_abs x) threshold) audio_data"

subsection \<open>Windows and keep segments (lines 100 to 120)\<close>

type_synonym segment = "rat \<times> rat"

definition window_size :: "rat \<Rightarrow> int" where
  "window_size min_silence_duration = int_of_float (44100 * min_silence_duration)"

definition num_windows :: "bool list \<Rightarrow> int \<Rightarrow> py_error + int" where
  "num_windows is_silent ws = py_floordiv (int (length is_silent)) ws"

text \<open>The slice \<open>is_silent[i * window_size:(i + 1) * window_size]\<close> of line 108.\<close>

definition window :: "bool list \<Rightarrow> int \<Rightarrow> nat \<Rightarrow> bool list" where
  "window is_silent ws i = py_slice is_silent (int i * ws) ((int i + 1) * ws)"

text \<open>
  The test of line 109 sends a window to the \<open>continue\<close> branch when its mean is below
  0.8. A window that reaches the \<open>else\<close> branch is a silent one.
\<close>

definition window_silent :: "bool list \<Rightarrow> bool" where
  "window_silent w = (\<not> np_less (np_mean w) (4 / 5))"

text \<open>One iteration of the loop of lines 107 to 117, on the pair of its two variables.\<close>

definition loop_body :: "bool list \<Rightarrow> int \<Rightarrow> nat \<Rightarrow> segment list \<times> rat \<Rightarrow> segment list \<times> rat" where
  "loop_body is_silent ws i st =
     (case st of (keep_segments, start_time) \<Rightarrow>
        if np_less (np_mean (window is_silent ws i)) (4 / 5) then (keep_segments, start_time)
        else ((if start_time < of_int (int i * ws) / 44100
               then keep_segments @ [(start_time, of_int (int i * ws) / 44100)]
               else keep_segments),
              of_int ((int i + 1) * ws) / 44100))"

text \<open>The whole loop over \<open>range(num_windows)\<close>, from \<open>keep_segments = []\<close>, \<open>start_time = 0\<close>.\<close>

definition scan_windows :: "bool list \<Rightarrow> int \<Rightarrow> int \<Rightarrow> segment list \<times> rat" where
  "scan_windows is_silent ws n = fold (loop_body is_silent ws) [0..<nat n] ([], 0)"

text \<open>Lines 103 to 120: the loop, then the tail check against the duration of the video.\<close>

definition keep_segments :: "bool list \<Rightarrow> int \<Rightarrow> int \<Rightarrow> rat \<Rightarrow> segment list" where
  "keep_segments is_silent ws n duration =
     (case scan_windows is_silent ws n of (keep, start_time) \<Rightarrow>
        if start_time < duration then keep @ [(start_time, duration)] else keep)"

text \<open>Lines 100 to 120 from the per-sample flags.\<close>

definition segments_of :: "bool list \<Rightarrow> rat \<Rightarrow> rat \<Rightarrow> py_error + segment list" where
  "segments_of is_silent min_silence_duration duration =
     (case num_windows is_silent (window_size min_silence_duration) of
        Inl e \<Rightarrow> Inl e
      | Inr n \<Rightarrow> Inr (keep_segments is_silent (window_size min_silence_duration) n duration))"

subsection \<open>The output file (lines 125 to 153)\<close>

text \<open>\<open>s.rsplit(sep, 1)\<close>: split once, at the last separator.\<close>

definition rsplit1 :: "string \<Rightarrow> char \<Rightarrow> string list" where
  "rsplit1 s sep =
     (if sep \<in> set s
      then [rev (tl (dropWhile (\<lambda>c. c \<noteq> sep) (rev s))), rev (takeWhile (\<lambda>c. c \<noteq> sep) (rev s))]
      else [s])"

definition output_path :: "string \<Rightarrow> string" where
  "output_path video_path = hd (rsplit1 video_path CHR ''.'') @ ''_no_silence.mp4''"

text \<open>The path written, if any: nothing is written for an empty list of segments.\<close>

definition create_output :: "string \<Rightarrow> segment list \<Rightarrow> string option" where
  "create_output video_path keep = (if keep = [] then None else Some (output_path video_path))"

subsection \<open>The function\<close>

text \<open>
  \<open>remove_silence\<close> on the CPU path, from the decoded samples of the audio track, the
  number of channels and the duration of the video. The result is the exception caught
  by the handler of line 158, or the segments kept and the path written. Decoding,
  cutting and encoding are the media library's and are taken to succeed.
\<close>

definition remove_silence ::
  "string \<Rightarrow> nat \<Rightarrow> int list \<Rightarrow> rat \<Rightarrow> rat \<Rightarrow> rat \<Rightarrow> py_error + segment list \<times> string option" where
  "remove_silence video_path nchannels samples duration threshold min_silence_duration =
     (case read_audio nchannels samples of
        Inl e \<Rightarrow> Inl e
      | Inr raw \<Rightarrow>
          (case normalize raw of
             Inl e \<Rightarrow> Inl e
           | Inr audio_data \<Rightarrow>
               (case segments_of (is_silent_cpu audio_data threshold) min_silence_duration duration of
                  Inl e \<Rightarrow> Inl e
                | Inr keep \<Rightarrow> Inr (keep, create_output video_path keep))))"

subsection \<open>Ordered, non-overlapping segment lists\<close>

text \<open>
  A list of segments is ordered and non-overlapping when the start times increase
  strictly and each segment ends no later than the next one starts.
\<close>

fun separated :: "segment list \<Rightarrow> bool" where
  "separated [] = True"
| "separated [a] = True"
| "separated (a # b # xs) = (fst a < fst b \<and> snd a \<le> fst b \<and> separated (b # xs))"


section \<open>Subtitle timestamps (02_Subtitles.py and 03_text_to_Speech.py)\<close>

subsection \<open>Formatting integers\<close>

definition digit_char :: "nat \<Rightarrow> char" where
  "digit_char d = char_of (48 + d)"

text \<open>The decimal digits of a natural number, as \<open>str\<close> prints them.\<close>

fun digits :: "nat \<Rightarrow> string" where
  "digits n = (if n < 10 then [digit_char n] else digits (n div 10) @ [digit_char (n mod 10)])"

declare digits.simps [simp del]

text \<open>
  The format specification \<open>:0w\<close> on an integer: the sign first, then zeros up to the
  width \<open>w\<close>, then the digits. A number wider than \<open>w\<close> is printed whole.
\<close>

definition format_zero :: "nat \<Rightarrow> int \<Rightarrow> string" where
  "format_zero w i =
     (let sgn = (if i < 0 then ''-'' else []); ds = digits (nat \<bar>i\<bar>)
      in sgn @ replicate (w - length sgn - length ds) CHR ''0'' @ ds)"

subsection \<open>The timestamp of \<open>write_srt\<close> (lines 20 to 26)\<close>

text \<open>\<open>x // y\<close> and \<open>x % y\<close> on floats, for a divisor other than zero.\<close>

definition float_floordiv :: "rat \<Rightarrow> rat \<Rightarrow> rat" where
  "float_floordiv x y = of_int \<lfloor>x / y\<rfloor>"

definition float_mod :: "rat \<Rightarrow> rat \<Rightarrow> rat" where
  "float_mod x y = x - y * of_int \<lfloor>x / y\<rfloor>"

text \<open>The f-string of lines 22 and 23, for the start or the end of a segment.\<close>

definition srt_time :: "rat \<Rightarrow> string" where
  "srt_time t =
     format_zero 2 (int_of_float (float_floordiv t 3600)) @ '':'' @
     format_zero 2 (int_of_float (float_floordiv (float_mod t 3600) 60)) @ '':'' @
     format_zero 2 (int_of_float (float_mod t 60)) @ '','' @
     format_zero 3 (int_of_float (float_mod (t * 1000) 1000))"

text \<open>A segment of the transcription: start, end and text.\<close>

record srt_segment =
  seg_start :: rat
  seg_end :: rat
  seg_text :: string

text \<open>What \<open>write_srt\<close> writes to the file for segment number \<open>i\<close>, and for all segments.\<close>

definition srt_block :: "nat \<Rightarrow> srt_segment \<Rightarrow> string" where
  "srt_block i segment =
     digits (i + 1) @ [CHR 0x0A] @
     srt_time (seg_start segment) @ '' --> '' @ srt_time (seg_end segment) @ [CHR 0x0A] @
     seg_text segment @ [CHR 0x0A, CHR 0x0A]"

definition write_srt :: "srt_segment list \<Rightarrow> string" where
  "write_srt segments = concat (map (\<lambda>(i, segment). srt_block i segment) (enumerate 0 segments))"

subsection \<open>\<open>AudioSynchronizer.parse_timestamp\<close> (lines 38 to 45)\<close>

text \<open>\<open>s.split(sep)\<close> for a separator of one character.\<close>

fun split :: "char \<Rightarrow> string \<Rightarrow> string list" where
  "split sep [] = [[]]"
| "split sep (c # cs) =
     (if c = sep then [] # split sep cs
      else (case split sep cs of [] \<Rightarrow> [[c]] | w # ws \<Rightarrow> (c # w) # ws))"








section \<open>Properties of the silence remover\<close>

subsection \<open>The loop over the windows\<close>

lemma separated_snoc:
  "separated (xs @ [c]) =
     (separated xs \<and> (xs = [] \<or> (fst (last xs) < fst c \<and> snd (last xs) \<le> fst c)))"
  by (induction xs rule: separated.induct) auto

lemma loop_body_voiced:
  "\<not> window_silent (window is_silent ws i) \<Longrightarrow> loop_body is_silent ws i st = st"
  by (simp add: loop_body_def window_silent_def split: prod.splits)

lemma loop_body_silent:
  "window_silent (window is_silent ws i) \<Longrightarrow>
   loop_body is_silent ws i (keep, start_time) =
     ((if start_time < of_int (int i * ws) / 44100
       then keep @ [(start_time, of_int (int i * ws) / 44100)] else keep),
      of_int ((int i + 1) * ws) / 44100)"
  by (simp add: loop_body_def window_silent_def)

lemma time_mono: "0 < ws \<Longrightarrow> (of_int (int i * ws) / 44100 :: rat) < of_int ((int i + 1) * ws) / 44100"
  by (simp add: divide_strict_right_mono algebra_simps)

lemma time_antimono: "ws \<le> 0 \<Longrightarrow> (of_int ((int i + 1) * ws) / 44100 :: rat) \<le> of_int (int i * ws) / 44100"
  by (simp add: divide_right_mono algebra_simps)

lemma fold_loop_nonpos:
  assumes ws: "ws \<le> 0"
  shows "case fold (loop_body is_silent ws) [0..<k] ([], 0) of (keep, st) \<Rightarrow>
           keep = [] \<and> of_int (int k * ws) / 44100 \<le> st"
proof (induction k)
  case 0
  show ?case by simp
next
  case (Suc k)
  obtain keep st where sc: "fold (loop_body is_silent ws) [0..<k] ([], 0) = (keep, st)"
    by (cases "fold (loop_body is_silent ws) [0..<k] ([], 0)")
  from Suc sc have k: "keep = []" and stk: "of_int (int k * ws) / 44100 \<le> st"
    by auto
  have st': "of_int (int (Suc k) * ws) / 44100 = (of_int ((int k + 1) * ws) / 44100 :: rat)"
    by (simp add: algebra_simps)
  show ?case
  proof (cases "window_silent (window is_silent ws k)")
    case False
    then have "fold (loop_body is_silent ws) [0..<Suc k] ([], 0) = (keep, st)"
      by (simp add: sc loop_body_voiced)
    with k stk time_antimono [OF ws, of k] show ?thesis unfolding st' by auto
  next
    case True
    then have "fold (loop_body is_silent ws) [0..<Suc k] ([], 0) =
        ([], of_int ((int k + 1) * ws) / 44100)"
      using stk k by (simp add: sc loop_body_silent)
    then show ?thesis unfolding st' by simp
  qed
qed

lemma keep_segments_separated_nonpos:
  assumes ws: "ws \<le> 0"
  shows "separated (keep_segments is_silent ws n duration)"
proof -
  obtain keep st where sc: "scan_windows is_silent ws n = (keep, st)"
    by (cases "scan_windows is_silent ws n")
  from fold_loop_nonpos [OF ws, where k = "nat n" and is_silent = is_silent] sc
  have "keep = []" by (auto simp: scan_windows_def)
  then show ?thesis by (simp add: keep_segments_def sc)
qed

lemma fold_loop_invariant:
  assumes ws: "0 < ws"
  shows "case fold (loop_body is_silent ws) [0..<k] ([], 0) of (keep, st) \<Rightarrow>
           separated keep \<and> 0 \<le> st \<and> st \<le> of_int (int k * ws) / 44100 \<and>
           (\<forall>seg\<in>set keep. fst seg < snd seg \<and> snd seg < st)"
proof (induction k)
  case 0
  show ?case by simp
next
  case (Suc k)
  obtain keep st where sc: "fold (loop_body is_silent ws) [0..<k] ([], 0) = (keep, st)"
    by (cases "fold (loop_body is_silent ws) [0..<k] ([], 0)")
  from Suc sc have sep: "separated keep" and st0: "0 \<le> st"
    and stk: "st \<le> of_int (int k * ws) / 44100"
    and segs: "\<forall>seg\<in>set keep. fst seg < snd seg \<and> snd seg < st"
    by auto
  let ?e = "of_int (int k * ws) / 44100 :: rat"
  let ?st' = "of_int ((int k + 1) * ws) / 44100 :: rat"
  have step: "?e < ?st'"
    by (rule time_mono [OF ws])
  have st': "of_int (int (Suc k) * ws) / 44100 = ?st'"
    by (simp add: algebra_simps)
  show ?case
  proof (cases "window_silent (window is_silent ws k)")
    case False
    then have "fold (loop_body is_silent ws) [0..<Suc k] ([], 0) = (keep, st)"
      by (simp add: sc loop_body_voiced)
    with sep st0 stk segs step show ?thesis unfolding st' by auto
  next
    case True
    have eq: "fold (loop_body is_silent ws) [0..<Suc k] ([], 0) =
        ((if st < ?e then keep @ [(st, ?e)] else keep), ?st')"
      using True by (simp add: sc loop_body_silent)
    have lastk: "keep \<noteq> [] \<Longrightarrow> fst (last keep) < st \<and> snd (last keep) \<le> st"
      using segs last_in_set [of keep] by fastforce
    have "separated (if st < ?e then keep @ [(st, ?e)] else keep)"
      using sep lastk by (auto simp: separated_snoc)
    moreover have "0 \<le> ?st'" using ws by simp
    moreover have "\<forall>seg\<in>set (if st < ?e then keep @ [(st, ?e)] else keep). fst seg < snd seg \<and> snd seg < ?st'"
      using segs stk step by auto
    ultimately show ?thesis unfolding eq st' by simp
  qed
qed

lemma keep_segments_separated_pos:
  assumes ws: "0 < ws"
  shows "separated (keep_segments is_silent ws n duration)"
proof -
  obtain keep st where sc: "scan_windows is_silent ws n = (keep, st)"
    by (cases "scan_windows is_silent ws n")
  from fold_loop_invariant [OF ws, where k = "nat n" and is_silent = is_silent] sc
  have sep: "separated keep" and segs: "\<forall>seg\<in>set keep. fst seg < snd seg \<and> snd seg < st"
    by (auto simp: scan_windows_def)
  have "keep \<noteq> [] \<Longrightarrow> fst (last keep) < st \<and> snd (last keep) \<le> st"
    using segs last_in_set [of keep] by fastforce
  with sep show ?thesis
    by (auto simp: keep_segments_def sc separated_snoc)
qed

lemma fold_all_voiced:
  "(\<forall>i<k. \<not> window_silent (window is_silent ws i)) \<Longrightarrow>
   fold (loop_body is_silent ws) [0..<k] ([], 0) = ([], 0)"
  by (induction k) (simp_all add: loop_body_voiced)

lemma fold_all_silent:
  "(\<forall>i<k. window_silent (window is_silent ws i)) \<Longrightarrow>
   fold (loop_body is_silent ws) [0..<k] ([], 0) = ([], of_int (int k * ws) / 44100)"
  by (induction k) (simp_all add: loop_body_silent algebra_simps)

lemma fold_last_silent:
  "window_silent (window is_silent ws k) \<Longrightarrow>
   snd (fold (loop_body is_silent ws) [0..<Suc k] ([], 0)) = of_int ((int k + 1) * ws) / 44100"
  by (cases "fold (loop_body is_silent ws) [0..<k] ([], 0)") (simp add: loop_body_silent)

subsection \<open>Windows of constant lists\<close>

lemma np_mean_all_True: "w \<noteq> [] \<Longrightarrow> \<forall>b\<in>set w. b \<Longrightarrow> np_mean w = Fin 1"
  by (simp add: np_mean_def filter_id_conv)

lemma np_mean_all_False: "w \<noteq> [] \<Longrightarrow> \<forall>b\<in>set w. \<not> b \<Longrightarrow> np_mean w = Fin 0"
  by (simp add: np_mean_def filter_empty_conv [THEN iffD2])

lemma py_slice_nat:
  assumes "a \<le> b" and "b \<le> length xs"
  shows "py_slice xs (int a) (int b) = take (b - a) (drop a xs)"
proof -
  have "nat (int b - int a) = b - a" by simp
  moreover have "min (int a) (int (length xs)) = int a" "min (int b) (int (length xs)) = int b"
    using assms by simp_all
  ultimately show ?thesis
    unfolding py_slice_def Let_def by (simp del: of_nat_diff)
qed

lemma window_eq:
  assumes "0 < ws" and "(int i + 1) * ws \<le> int (length bs)"
  shows "window bs ws i = take (nat ws) (drop (i * nat ws) bs)"
proof -
  obtain w where w: "ws = int w" and w0: "0 < w"
    using assms(1) by (metis zero_less_imp_eq_int)
  have le: "(i + 1) * w \<le> length bs"
    using assms(2) unfolding w by (metis of_nat_1 of_nat_add of_nat_mult of_nat_le_iff)
  have a: "int i * ws = int (i * w)" "(int i + 1) * ws = int ((i + 1) * w)"
    by (simp_all add: w algebra_simps)
  have "py_slice bs (int (i * w)) (int ((i + 1) * w)) = take ((i + 1) * w - i * w) (drop (i * w) bs)"
    using le by (intro py_slice_nat) simp_all
  then show ?thesis
    unfolding window_def a by (simp add: w)
qed

lemma window_replicate:
  assumes "0 < ws" and "(int i + 1) * ws \<le> int k"
  shows "window (replicate k b) ws i = replicate (nat ws) b"
proof -
  obtain w where w: "ws = int w" and w0: "0 < w"
    using assms(1) by (metis zero_less_imp_eq_int)
  have le: "(i + 1) * w \<le> k"
    using assms(2) unfolding w by (metis of_nat_1 of_nat_add of_nat_mult of_nat_le_iff)
  have "window (replicate k b) ws i = take (nat ws) (drop (i * nat ws) (replicate k b))"
    using assms by (simp add: window_eq)
  also have "\<dots> = replicate w b"
    using le by (simp add: w min_def)
  finally show ?thesis by (simp add: w)
qed

lemma window_silent_replicate_True: "0 < k \<Longrightarrow> window_silent (replicate k True)"
  by (simp add: window_silent_def np_mean_def)

lemma window_silent_replicate_False: "0 < k \<Longrightarrow> \<not> window_silent (replicate k False)"
  by (simp add: window_silent_def np_mean_def)

subsection \<open>Order of the keep segments\<close>

text \<open>
  Claim C6. For every sequence of per-sample flags, whatever the window size, the number
  of windows and the duration, the list of keep segments built by lines 103 to 120 is
  ordered and non-overlapping: the start times increase strictly and every segment ends
  no later than the next one starts.
\<close>

theorem keep_segments_separated: "separated (keep_segments is_silent ws n duration)"
proof (cases "0 < ws")
  case True
  then show ?thesis by (rule keep_segments_separated_pos)
next
  case False
  then have "ws \<le> 0" by simp
  then show ?thesis by (rule keep_segments_separated_nonpos)
qed

theorem keep_segments_separated_witness:
  "separated (keep_segments (replicate 4 False @ replicate 4 True @ replicate 4 False) 4 3 (12 / 44100)) \<and>
   keep_segments (replicate 4 False @ replicate 4 True @ replicate 4 False) 4 3 (12 / 44100) =
     [(0, 4 / 44100), (8 / 44100, 12 / 44100)]"
proof -
  let ?bs = "replicate 4 False @ replicate 4 True @ replicate 4 False"
  have w0: "window ?bs 4 0 = replicate 4 False"
    and w1: "window ?bs 4 (Suc 0) = replicate 4 True"
    and w2: "window ?bs 4 2 = replicate 4 False"
    by (simp_all add: window_def py_slice_def)
  have l: "[0..<nat 3] = [0, 1, 2]"
    by (simp add: upt_rec numeral_3_eq_3)
  have "keep_segments ?bs 4 3 (12 / 44100) = [(0, 4 / 44100), (8 / 44100, 12 / 44100)]"
    unfolding keep_segments_def scan_windows_def l
    by (simp add: loop_body_def w0 w1 w2 np_mean_def)
  with keep_segments_separated [of ?bs 4 3 "12 / 44100"] show ?thesis by blast
qed

subsection \<open>Every window voiced\<close>

text \<open>
  Claim C7. When the duration is positive and every full window is classified voiced
  (the test of line 109 sends each of them to \<open>continue\<close>), the keep segments are
  exactly the one segment from 0 to the duration.
\<close>

theorem all_voiced_keeps_whole_source:
  assumes "0 < duration" and "\<forall>i<nat n. \<not> window_silent (window is_silent ws i)"
  shows "keep_segments is_silent ws n duration = [(0, duration)]"
  using assms by (simp add: keep_segments_def scan_windows_def fold_all_voiced)

theorem all_voiced_keeps_whole_source_witness:
  "(0::rat) < 2 \<and> \<not> window_silent (window (replicate 88200 False) 44100 0) \<and>
   \<not> window_silent (window (replicate 88200 False) 44100 1) \<and>
   keep_segments (replicate 88200 False) 44100 2 2 = [(0, 2)]"
proof -
  have w: "window (replicate 88200 False) 44100 i = replicate 44100 False" if "i < 2" for i
    using that by (simp add: window_replicate)
  have h: "\<forall>i<nat 2. \<not> window_silent (window (replicate 88200 False) 44100 i)"
    by (simp add: w window_silent_replicate_False)
  have d: "(0::rat) < 2" by simp
  from h have "\<not> window_silent (window (replicate 88200 False) 44100 0)"
    and "\<not> window_silent (window (replicate 88200 False) 44100 1)" by simp_all
  with d all_voiced_keeps_whole_source [OF d h] show ?thesis by blast
qed

subsection \<open>Every window silent\<close>

text \<open>
  Claim C2 says that no keep segment is produced and no file is written when every full
  window is classified silent. The tail check of line 119 still keeps whatever remains
  after the last full window: one and a half seconds of silence give one silent window
  and the segment from 1 to 1.5 seconds, which is written out.
\<close>

theorem all_silent_counterexample:
  "num_windows (replicate 66150 True) (window_size 1) = Inr 1 \<and>
   window_silent (window (replicate 66150 True) (window_size 1) 0) \<and>
   segments_of (replicate 66150 True) 1 (3 / 2) = Inr [(1, 3 / 2)] \<and>
   create_output ''clip.mp4'' [(1, 3 / 2)] = Some ''clip_no_silence.mp4''"
proof -
  have ws: "window_size 1 = 44100"
    by (simp add: window_size_def int_of_float_def)
  have nw: "num_windows (replicate 66150 True) 44100 = Inr 1"
    by (simp add: num_windows_def py_floordiv_def)
  have w: "window (replicate 66150 True) 44100 0 = replicate 44100 True"
    by (simp add: window_replicate)
  have s: "window_silent (window (replicate 66150 True) 44100 0)"
    by (simp add: w window_silent_replicate_True)
  have k: "keep_segments (replicate 66150 True) 44100 1 (3 / 2) = [(1, 3 / 2)]"
    using s by (simp add: keep_segments_def scan_windows_def loop_body_silent)
  have o: "create_output ''clip.mp4'' [(1, 3 / 2)] = Some ''clip_no_silence.mp4''"
    by (simp add: create_output_def output_path_def rsplit1_def)
  show ?thesis
    using s by (simp add: ws nw k o segments_of_def)
qed

text \<open>
  Claim C2, amended. When every full window is classified silent, the loop itself
  produces no segment: the keep segments are the tail segment from the end of the last
  full window to the duration when the duration lies beyond that point, and nothing
  otherwise; no output file is written exactly when the duration does not exceed the end
  of the last full window.
\<close>

theorem all_silent_keeps_only_tail:
  assumes "\<forall>i<nat n. window_silent (window is_silent ws i)"
  shows "keep_segments is_silent ws n duration =
           (if of_int (int (nat n) * ws) / 44100 < duration
            then [(of_int (int (nat n) * ws) / 44100, duration)] else []) \<and>
         (create_output video_path (keep_segments is_silent ws n duration) = None) =
           (duration \<le> of_int (int (nat n) * ws) / 44100)"
  using assms by (simp add: keep_segments_def scan_windows_def fold_all_silent create_output_def)

theorem all_silent_keeps_only_tail_witness:
  "window_silent (window (replicate 88200 True) 44100 0) \<and>
   window_silent (window (replicate 88200 True) 44100 1) \<and>
   keep_segments (replicate 88200 True) 44100 2 2 = [] \<and>
   create_output ''clip.mp4'' (keep_segments (replicate 88200 True) 44100 2 2) = None"
proof -
  have w: "window (replicate 88200 True) 44100 i = replicate 44100 True" if "i < 2" for i
    using that by (simp add: window_replicate)
  have h: "\<forall>i<nat 2. window_silent (window (replicate 88200 True) 44100 i)"
    by (simp add: w window_silent_replicate_True)
  from h have "window_silent (window (replicate 88200 True) 44100 0)"
    and "window_silent (window (replicate 88200 True) 44100 1)" by simp_all
  moreover from all_silent_keeps_only_tail [OF h, of 2 "''clip.mp4''"]
  have "keep_segments (replicate 88200 True) 44100 2 2 = [] \<and>
    create_output ''clip.mp4'' (keep_segments (replicate 88200 True) 44100 2 2) = None"
    by (simp add: create_output_def)
  ultimately show ?thesis by blast
qed

subsection \<open>The tail segment\<close>

text \<open>
  Claim C4. After the loop over the windows, if the value of \<open>start_time\<close> is strictly
  less than the duration of the source, the segment from \<open>start_time\<close> to the duration
  is appended to the keep segments. This also holds when the last full window was
  classified silent: \<open>start_time\<close> is then the end of that window, and whatever the
  source has beyond it is kept.
\<close>

theorem tail_segment_appended:
  assumes "scan_windows is_silent ws n = (keep, start_time)" and "start_time < duration"
  shows "keep_segments is_silent ws n duration = keep @ [(start_time, duration)] \<and>
         (0 < n \<and> window_silent (window is_silent ws (nat n - 1)) \<longrightarrow>
            start_time = of_int (n * ws) / 44100)"
proof -
  have "start_time = of_int (n * ws) / 44100"
    if n: "0 < n" and s: "window_silent (window is_silent ws (nat n - 1))"
  proof -
    from n obtain k where k: "nat n = Suc k" by (cases "nat n") auto
    with n have nk: "n = int k + 1" by linarith
    from fold_last_silent [of is_silent ws k] s k assms(1)
    show ?thesis by (simp add: scan_windows_def nk)
  qed
  with assms show ?thesis by (simp add: keep_segments_def)
qed

theorem tail_segment_appended_witness:
  "scan_windows (replicate 4 False @ replicate 6 True) 4 2 = ([(0, 4 / 44100)], 8 / 44100) \<and>
   (8 / 44100 :: rat) < 10 / 44100 \<and>
   window_silent (window (replicate 4 False @ replicate 6 True) 4 (nat 2 - 1)) \<and>
   keep_segments (replicate 4 False @ replicate 6 True) 4 2 (10 / 44100) =
     [(0, 4 / 44100), (8 / 44100, 10 / 44100)]"
proof -
  let ?bs = "replicate 4 False @ replicate 6 True"
  have w0: "window ?bs 4 0 = replicate 4 False"
    and w1: "window ?bs 4 (Suc 0) = replicate 4 True"
    by (simp_all add: window_def py_slice_def)
  have l: "[0..<nat 2] = [0, Suc 0]"
    by (simp add: upt_rec numeral_2_eq_2)
  have sc: "scan_windows ?bs 4 2 = ([(0, 4 / 44100)], 8 / 44100)"
    unfolding scan_windows_def l by (simp add: loop_body_def w0 w1 np_mean_def)
  have d: "(8 / 44100 :: rat) < 10 / 44100" by simp
  have s: "window_silent (window ?bs 4 (nat 2 - 1))"
    by (simp add: w1 window_silent_replicate_True)
  from tail_segment_appended [OF sc d] have "keep_segments ?bs 4 2 (10 / 44100) = [(0, 4 / 44100), (8 / 44100, 10 / 44100)]"
    by simp
  with sc d s show ?thesis by blast
qed

subsection \<open>Windows and their classification\<close>








subsection \<open>Ten seconds with two quiet seconds\<close>

lemma loop_body_alt:
  "loop_body is_silent ws i (keep, start_time) =
     (if window_silent (window is_silent ws i)
      then ((if start_time < of_int (int i * ws) / 44100
             then keep @ [(start_time, of_int (int i * ws) / 44100)] else keep),
            of_int ((int i + 1) * ws) / 44100)
      else (keep, start_time))"
  by (simp add: loop_body_def window_silent_def)

lemma window_size_default: "window_size 1 = 44100"
  by (simp add: window_size_def int_of_float_def)

lemma upt_10: "[0..<10] = [0, 1, 2, 3, 4, 5, 6, 7, 8, 9 :: nat]"
  by code_simp

text \<open>
  Claim C8. For ten seconds of mono audio at 44100 Hz (441000 normalized samples), a
  threshold of 0.01 and a \<open>min_silence_duration\<close> of one second, where the samples of
  seconds 3 and 4 (indices 132300 up to, not including, 220500) are below the threshold
  and no other sample is, the keep segments are exactly (0, 3) and (5, 10).
\<close>

theorem ten_second_scenario:
  assumes len: "length xs = 441000"
    and quiet: "\<forall>k. 132300 \<le> k \<and> k < 220500 \<longrightarrow> np_less (np_abs (xs ! k)) (1 / 100)"
    and loud: "\<forall>k<441000. \<not> (132300 \<le> k \<and> k < 220500) \<longrightarrow> \<not> np_less (np_abs (xs ! k)) (1 / 100)"
  shows "segments_of (is_silent_cpu xs (1 / 100)) 1 10 = Inr [(0, 3), (5, 10)]"
proof -
  let ?bs = "is_silent_cpu xs (1 / 100)"
  have lbs: "length ?bs = 441000" by (simp add: is_silent_cpu_def len)
  have nw: "num_windows ?bs 44100 = Inr 10"
    by (simp add: num_windows_def py_floordiv_def lbs)
  have win: "window ?bs 44100 i = take 44100 (drop (i * 44100) ?bs)" if "i < 10" for i
    using that window_eq [of 44100 i ?bs] by (simp add: lbs)
  have el: "take 44100 (drop (i * 44100) ?bs) ! j = np_less (np_abs (xs ! (i * 44100 + j))) (1 / 100)"
    if "i < 10" "j < 44100" for i j
    using that by (simp add: is_silent_cpu_def len)
  have lw: "length (take 44100 (drop (i * 44100) ?bs)) = 44100" if "i < 10" for i
    using that by (simp add: lbs)
  have sil: "window_silent (window ?bs 44100 i)" if "i = 3 \<or> i = 4" for i
  proof -
    from that have i: "i < 10" by auto
    have "\<forall>b\<in>set (take 44100 (drop (i * 44100) ?bs)). b"
    proof
      fix b assume "b \<in> set (take 44100 (drop (i * 44100) ?bs))"
      then obtain j where j: "j < 44100" and b: "b = take 44100 (drop (i * 44100) ?bs) ! j"
        unfolding in_set_conv_nth lw [OF i] by auto
      from that j have "132300 \<le> i * 44100 + j \<and> i * 44100 + j < 220500" by auto
      with quiet show b unfolding b el [OF i j] by blast
    qed
    moreover have "take 44100 (drop (i * 44100) ?bs) \<noteq> []" using lw [OF i] by auto
    ultimately show ?thesis
      unfolding win [OF i] window_silent_def by (simp add: np_mean_all_True)
  qed
  have voi: "\<not> window_silent (window ?bs 44100 i)" if i: "i < 10" and "i \<noteq> 3" "i \<noteq> 4" for i
  proof -
    have "\<forall>b\<in>set (take 44100 (drop (i * 44100) ?bs)). \<not> b"
    proof
      fix b assume "b \<in> set (take 44100 (drop (i * 44100) ?bs))"
      then obtain j where j: "j < 44100" and b: "b = take 44100 (drop (i * 44100) ?bs) ! j"
        unfolding in_set_conv_nth lw [OF i] by auto
      from that j have "i * 44100 + j < 441000" "\<not> (132300 \<le> i * 44100 + j \<and> i * 44100 + j < 220500)"
        by auto
      with loud show "\<not> b" unfolding b el [OF i j] by blast
    qed
    moreover have "take 44100 (drop (i * 44100) ?bs) \<noteq> []" using lw [OF i] by auto
    ultimately show ?thesis
      unfolding win [OF i] window_silent_def by (simp add: np_mean_all_False)
  qed
  have "keep_segments ?bs 44100 10 10 = [(0, 3), (5, 10)]"
    unfolding keep_segments_def scan_windows_def
    by (simp add: upt_10 loop_body_alt sil voi)
  then show ?thesis
    by (simp add: segments_of_def window_size_default nw)
qed

theorem ten_second_scenario_witness:
  "length (replicate 132300 (Fin 1) @ replicate 88200 (Fin 0) @ replicate 220500 (Fin 1)) = 441000 \<and>
   np_less (np_abs ((replicate 132300 (Fin 1) @ replicate 88200 (Fin 0) @ replicate 220500 (Fin 1)) ! 132300)) (1 / 100) \<and>
   \<not> np_less (np_abs ((replicate 132300 (Fin 1) @ replicate 88200 (Fin 0) @ replicate 220500 (Fin 1)) ! 0)) (1 / 100) \<and>
   segments_of (is_silent_cpu (replicate 132300 (Fin 1) @ replicate 88200 (Fin 0) @ replicate 220500 (Fin 1)) (1 / 100)) 1 10 =
     Inr [(0, 3), (5, 10)]"
proof -
  let ?xs = "replicate 132300 (Fin 1) @ replicate 88200 (Fin 0) @ replicate 220500 (Fin 1)"
  have len: "length ?xs = 441000" by simp
  have quiet: "\<forall>k. 132300 \<le> k \<and> k < 220500 \<longrightarrow> np_less (np_abs (?xs ! k)) (1 / 100)"
    by (auto simp: nth_append)
  have loud: "\<forall>k<441000. \<not> (132300 \<le> k \<and> k < 220500) \<longrightarrow> \<not> np_less (np_abs (?xs ! k)) (1 / 100)"
    by (auto simp: nth_append)
  have a: "np_less (np_abs (?xs ! 132300)) (1 / 100)"
    using quiet by simp
  have b: "\<not> np_less (np_abs (?xs ! 0)) (1 / 100)"
    by (simp add: nth_append)
  from len a b ten_second_scenario [OF len quiet loud] show ?thesis by blast
qed

subsection \<open>A file whose samples are all zero\<close>

lemma funpow_max_same: "(max x ^^ n) (x::'a::linorder) = x"
  by (induction n) simp_all

lemma np_max_replicate: "0 < n \<Longrightarrow> np_max (replicate n x) = Inr x"
  by (cases n) (simp_all add: funpow_max_same)

text \<open>
  Claim C1 says that a file whose samples are all zero ends in a \<open>DegenerateInputError\<close>
  and that no \<open>nan\<close> reaches the classification. Line 78 divides by the peak without
  looking at it. For two seconds of zero samples (mono, duration 2, the default
  threshold and \<open>min_silence_duration\<close>) every normalized sample is \<open>nan\<close>, no sample
  is flagged silent since a comparison with \<open>nan\<close> is false, both windows count as
  voiced, and the whole source is kept and written out; no exception is raised.
\<close>

theorem silent_file_kept_whole:
  "normalize (Int16 (replicate 88200 0)) = Inr (replicate 88200 NaN) \<and>
   is_silent_cpu (replicate 88200 NaN) (1 / 100) = replicate 88200 False \<and>
   remove_silence ''clip.mp4'' 1 (replicate 88200 0) 2 (1 / 100) 1 =
     Inr ([(0, 2)], Some ''clip_no_silence.mp4'')"
proof -
  have n: "normalize (Int16 (replicate 88200 0)) = Inr (replicate 88200 NaN)"
    by (simp add: normalize_def np_max_replicate int16_abs_def np_divide_def)
  have c: "is_silent_cpu (replicate 88200 NaN) (1 / 100) = replicate 88200 False"
    by (simp add: is_silent_cpu_def)
  have nw: "num_windows (replicate 88200 False) 44100 = Inr 2"
    by (simp add: num_windows_def py_floordiv_def)
  have w: "window (replicate 88200 False) 44100 i = replicate 44100 False" if "i < 2" for i
    using that by (simp add: window_replicate)
  have "fold (loop_body (replicate 88200 False) 44100) [0..<nat 2] ([], 0) = ([], 0)"
    by (rule fold_all_voiced) (simp add: w window_silent_replicate_False)
  then have k: "keep_segments (replicate 88200 False) 44100 2 2 = [(0, 2)]"
    by (simp add: keep_segments_def scan_windows_def)
  have s: "segments_of (replicate 88200 False) 1 2 = Inr [(0, 2)]"
    by (simp add: segments_of_def window_size_default nw k)
  have o: "create_output ''clip.mp4'' [(0, 2)] = Some ''clip_no_silence.mp4''"
    by (simp add: create_output_def output_path_def rsplit1_def)
  have "remove_silence ''clip.mp4'' 1 (replicate 88200 0) 2 (1 / 100) 1 =
     Inr ([(0, 2)], Some ''clip_no_silence.mp4'')"
    by (simp add: remove_silence_def read_audio_def n c s o)
  with n c show ?thesis by blast
qed

subsection \<open>The path of the output file\<close>

text \<open>
  Claim C9 says that the output file carries the extension of the input file. Line 132
  appends the fixed suffix \<open>_no_silence.mp4\<close> to the path cut at its last dot: an input
  \<open>clip.avi\<close> is written to \<open>clip_no_silence.mp4\<close>.
\<close>

theorem output_extension_counterexample:
  "create_output ''clip.avi'' [(0, 1)] = Some ''clip_no_silence.mp4'' \<and>
   create_output ''clip.avi'' [(0, 1)] \<noteq> Some ''clip_no_silence.avi''"
  by (simp add: create_output_def output_path_def rsplit1_def)

lemma rsplit1_last_dot:
  assumes "sep \<notin> set ext"
  shows "rsplit1 (stem @ sep # ext) sep = [stem, ext]"
proof -
  have "dropWhile (\<lambda>c. c \<noteq> sep) (rev ext @ sep # rev stem) = dropWhile (\<lambda>c. c \<noteq> sep) (sep # rev stem)"
    by (rule dropWhile_append2) (use assms in auto)
  then have d: "dropWhile (\<lambda>c. c \<noteq> sep) (rev ext @ sep # rev stem) = sep # rev stem"
    by simp
  have "takeWhile (\<lambda>c. c \<noteq> sep) (rev ext @ sep # rev stem) = rev ext @ takeWhile (\<lambda>c. c \<noteq> sep) (sep # rev stem)"
    by (rule takeWhile_append2) (use assms in auto)
  then have t: "takeWhile (\<lambda>c. c \<noteq> sep) (rev ext @ sep # rev stem) = rev ext"
    by simp
  show ?thesis by (simp add: rsplit1_def d t)
qed

text \<open>
  Claim C9, amended. For every input path of the form stem, dot, extension (the
  extension holding no dot) that produces at least one keep segment, the output file
  is the sibling named stem followed by \<open>_no_silence.mp4\<close>: its extension is always
  \<open>mp4\<close>, which is the extension of the input only for an \<open>.mp4\<close> input.
\<close>

theorem output_path_always_mp4:
  assumes "keep \<noteq> []" and "CHR ''.'' \<notin> set ext"
  shows "create_output (stem @ ''.'' @ ext) keep = Some (stem @ ''_no_silence.mp4'')"
  using assms by (simp add: create_output_def output_path_def rsplit1_last_dot)

theorem output_path_always_mp4_witness:
  "[(0::rat, 1::rat)] \<noteq> [] \<and> CHR ''.'' \<notin> set ''mp4'' \<and>
   create_output ''videos/take.1.mp4'' [(0, 1)] = Some ''videos/take.1_no_silence.mp4''"
proof -
  have a: "[(0::rat, 1::rat)] \<noteq> []" by simp
  have b: "CHR ''.'' \<notin> set ''mp4''" by simp
  from output_path_always_mp4 [OF a b, of "''videos/take.1''"]
  have "create_output ''videos/take.1.mp4'' [(0, 1)] = Some ''videos/take.1_no_silence.mp4''"
    by simp
  with a b show ?thesis by blast
qed


section \<open>Properties of the subtitle timestamps\<close>

subsection \<open>Digits and their value\<close>














subsection \<open>Splitting at a separator\<close>





subsection \<open>Hours, minutes, seconds and milliseconds\<close>







end
